theory Spec2Isabelle
  imports Main "HOL-Library.Sublist"
begin

section \<open>Data model\<close>

text \<open>
  A content block as the handlers read it: \<open>item.getKey()\<close>,
  \<open>fragment.getIn([key, 'text'], '')\<close> and \<open>item.getIn(['data', 'indent'], 0)\<close>.
  The two \<open>getIn\<close> reads carry a default, so the stored values are optional. The indent
  is whatever number the block's free-form data map holds; it is modelled as an integer
  and is not validated anywhere.
\<close>

record block =
  getKey :: string
  blockText :: "string option"
  indent :: "int option"

definition getIndent :: "block \<Rightarrow> int" where
  "getIndent b = (case indent b of None \<Rightarrow> 0 | Some d \<Rightarrow> d)"

text \<open>
  Detached DOM trees. \<open>HtmlNode s\<close> stands for the nodes the platform's HTML parser
  builds when the string \<open>s\<close> is assigned to \<open>innerHTML\<close>; the parser itself is not part of
  the repository and is not modelled. An element is kept apart from the other nodes, as
  only elements have attributes and an \<open>outerHTML\<close> that starts with a tag.
\<close>

datatype node =
    ElementNode string "(string \<times> string) list" "node list"
  | TextNode string
  | HtmlNode string

record element =
  tagName :: string
  attributes :: "(string \<times> string) list"
  childNodes :: "node list"

text \<open>
  What the browser contributes to serialisation: the escaping of attribute values and of
  text, and the markup that comes back from a tree parsed out of a string.
\<close>

record platform =
  escapeAttr :: "string \<Rightarrow> string"
  escapeText :: "string \<Rightarrow> string"
  reparse :: "string \<Rightarrow> string"

datatype exn = TypeError | IndexSizeError

section \<open>DOM operations used by the handlers\<close>

definition createElement :: "string \<Rightarrow> element" where
  "createElement t = \<lparr>tagName = t, attributes = [], childNodes = []\<rparr>"

fun setAttr :: "(string \<times> string) list \<Rightarrow> string \<Rightarrow> string \<Rightarrow> (string \<times> string) list" where
  "setAttr [] n v = [(n, v)]"
| "setAttr ((m, w) # rest) n v = (if m = n then (n, v) # rest else (m, w) # setAttr rest n v)"

definition setAttribute :: "element \<Rightarrow> string \<Rightarrow> string \<Rightarrow> element" where
  "setAttribute e n v = e\<lparr>attributes := setAttr (attributes e) n v\<rparr>"

definition appendChildren :: "element \<Rightarrow> node list \<Rightarrow> element" where
  "appendChildren e ns = e\<lparr>childNodes := childNodes e @ ns\<rparr>"

text \<open>Assigning \<open>innerHTML\<close> replaces the children; the empty string parses to no node.\<close>

definition setInnerHTML :: "element \<Rightarrow> string \<Rightarrow> element" where
  "setInnerHTML e s = e\<lparr>childNodes := (if s = [] then [] else [HtmlNode s])\<rparr>"

text \<open>\<open>cloneNode(true)\<close> copies the subtree, \<open>cloneNode()\<close> only the element and its attributes.\<close>

definition cloneNode :: "bool \<Rightarrow> element \<Rightarrow> element" where
  "cloneNode deep e = (if deep then e else e\<lparr>childNodes := []\<rparr>)"

definition voidElements :: "string list" where
  "voidElements = [''area'', ''base'', ''br'', ''col'', ''embed'', ''hr'', ''img'', ''input'',
     ''link'', ''meta'', ''param'', ''source'', ''track'', ''wbr'']"

definition attrText :: "platform \<Rightarrow> string \<times> string \<Rightarrow> string" where
  "attrText P a = '' '' @ fst a @ ''=\"'' @ escapeAttr P (snd a) @ ''\"''"

fun serialize :: "platform \<Rightarrow> node \<Rightarrow> string" where
  "serialize P (ElementNode t as cs) =
     ''<'' @ t @ concat (map (attrText P) as) @ ''>'' @
     (if t \<in> set voidElements then [] else concat (map (serialize P) cs) @ ''</'' @ t @ ''>'')"
| "serialize P (TextNode s) = escapeText P s"
| "serialize P (HtmlNode s) = reparse P s"

definition outerHTML :: "platform \<Rightarrow> element \<Rightarrow> string" where
  "outerHTML P e = serialize P (ElementNode (tagName e) (attributes e) (childNodes e))"

definition hasAttr :: "(string \<times> string) list \<Rightarrow> string \<Rightarrow> string \<Rightarrow> bool" where
  "hasAttr as n v = (map_of as n = Some v)"

text \<open>
  \<open>el.querySelectorAll('[contenteditable=false]')\<close> followed by \<open>remove()\<close> on every match:
  every descendant element carrying that attribute value leaves the tree.
\<close>

fun removeNonEditable :: "node \<Rightarrow> node" where
  "removeNonEditable (ElementNode t as cs) =
     ElementNode t as
       (map removeNonEditable
          (filter (\<lambda>c. case c of ElementNode _ bs _ \<Rightarrow> \<not> hasAttr bs ''contenteditable'' ''false''
                              | _ \<Rightarrow> True) cs))"
| "removeNonEditable (TextNode s) = TextNode s"
| "removeNonEditable (HtmlNode s) = HtmlNode s"

definition removeNonEditableIn :: "element \<Rightarrow> element" where
  "removeNonEditableIn e =
     (case removeNonEditable (ElementNode (tagName e) (attributes e) (childNodes e)) of
        ElementNode t as cs \<Rightarrow> \<lparr>tagName = t, attributes = as, childNodes = cs\<rparr>
      | _ \<Rightarrow> e)"

text \<open>
  \<open>el.querySelector('[data-block="true"][data-offset-key="K"]')\<close>: the first descendant
  element, in tree order, that carries both attribute values. The selector text is read as
  the pair of attribute values it names (block keys are generated from letters and digits).
\<close>

fun findBlock :: "string \<Rightarrow> node list \<Rightarrow> element option" where
  "findBlock k [] = None"
| "findBlock k (ElementNode t as cs # rest) =
     (if hasAttr as ''data-block'' ''true'' \<and> hasAttr as ''data-offset-key'' k
      then Some \<lparr>tagName = t, attributes = as, childNodes = cs\<rparr>
      else (case findBlock k cs of Some e \<Rightarrow> Some e | None \<Rightarrow> findBlock k rest))"
| "findBlock k (_ # rest) = findBlock k rest"

definition querySelectorBlock :: "element \<Rightarrow> string \<Rightarrow> element option" where
  "querySelectorBlock el k = findBlock k (childNodes el)"

section \<open>The nested-list reconstructor\<close>

text \<open>\<open>String.prototype.repeat\<close>, called only with a positive count.\<close>

definition repeat :: "string \<Rightarrow> nat \<Rightarrow> string" where
  "repeat s n = concat (replicate n s)"

text \<open>
  Modelled from the spec: \<open>ContentState\<close> is not under src/. The content built by
  \<open>ContentState.createFromBlockArray(fragment.toArray())\<close> is the fragment's block array (the
  spec, section 4.6, has the reconstructor walk the fragment's blocks in order), and
  \<open>getBlockAfter(key)\<close> is the block that follows the one with that key. The callback of the
  reduce computes \<open>hasChild\<close> and \<open>isLastChild\<close> from it and never reads them.
\<close>

definition getBlockAfter :: "block list \<Rightarrow> string \<Rightarrow> block option" where
  "getBlockAfter content k =
     (case dropWhile (\<lambda>b. getKey b \<noteq> k) content of
        _ # b # _ \<Rightarrow> Some b
      | _ \<Rightarrow> None)"

definition getHasChild :: "block list \<Rightarrow> block \<Rightarrow> bool" where
  "getHasChild contentState b =
     (case getBlockAfter contentState (getKey b) of
        None \<Rightarrow> False
      | Some blockAfter \<Rightarrow> getIndent blockAfter > getIndent b)"

definition getIsLastChild :: "block list \<Rightarrow> block \<Rightarrow> bool" where
  "getIsLastChild contentState b =
     (case getBlockAfter contentState (getKey b) of
        None \<Rightarrow> False
      | Some blockAfter \<Rightarrow> getIndent blockAfter < getIndent b)"

record acc =
  lastIndentation :: int
  html :: string

text \<open>
  The callback of the \<open>reduce\<close> that builds \<open>inner\<close> (editOnCopy.js lines 106 to 141,
  editOnCut.js lines 144 to 180). \<open>if (indent)\<close> tests the number for being non-zero;
  reading \<open>outerHTML\<close> of a missing map entry raises a TypeError.
\<close>

definition innerStep ::
  "platform \<Rightarrow> (string \<rightharpoonup> element) \<Rightarrow> block list \<Rightarrow> acc \<Rightarrow> block \<Rightarrow> exn + acc" where
  "innerStep P blockKeyToElementMap content a item =
     (let hasChild = getHasChild content item;
          isLastChild = getIsLastChild content item;
          d = getIndent item
      in case blockKeyToElementMap (getKey item) of
           None \<Rightarrow> Inl TypeError
         | Some itemElement \<Rightarrow>
             (let m0 = outerHTML P itemElement;
                  m1 = (if d \<noteq> 0 then ''<li>'' @ m0 @ ''</li>'' else m0);
                  sunkDepth = d - lastIndentation a;
                  m2 = (if sunkDepth > 0 then repeat ''<ul>'' (nat sunkDepth) @ m1 else m1);
                  m3 = (if sunkDepth < 0 then repeat ''</ul>'' (nat (- sunkDepth)) @ m2 else m2)
              in Inr \<lparr>lastIndentation = d, html = html a @ m3\<rparr>))"

text \<open>\<open>Array.prototype.reduce\<close> with a callback that may throw.\<close>

fun reduceE :: "('a \<Rightarrow> 'b \<Rightarrow> exn + 'a) \<Rightarrow> 'a \<Rightarrow> 'b list \<Rightarrow> exn + 'a" where
  "reduceE f a [] = Inr a"
| "reduceE f a (x # xs) = (case f a x of Inl e \<Rightarrow> Inl e | Inr a' \<Rightarrow> reduceE f a' xs)"

definition inner :: "platform \<Rightarrow> (string \<rightharpoonup> element) \<Rightarrow> block list \<Rightarrow> exn + acc" where
  "inner P blockKeyToElementMap content =
     reduceE (innerStep P blockKeyToElementMap content) \<lparr>lastIndentation = 0, html = []\<rparr> content"

section \<open>Editor, event and collaborators\<close>

text \<open>
  Modelled from the spec: the selection and editor state classes are not under src/; the
  spec's data model gives a selection as (startBlockId, startOffset, endBlockId, endOffset,
  isCollapsed) and a document as an ordered mapping from block identifier to block. The
  ordered mapping is the list of its blocks, each carrying its key.
\<close>

record selectionState =
  getStartKey :: string
  getStartOffset :: nat
  getEndKey :: string
  getEndOffset :: nat
  isCollapsed :: bool

record editorState =
  getCurrentContent :: "block list"
  getSelection :: selectionState

record editor =
  latestEditorState :: editorState

text \<open>
  The clipboard event: whether \<open>e.clipboardData\<close> is there, and, when \<open>e.target\<close> is a Node,
  the scroll position \<open>getScrollPosition(Style.getScrollParent(e.target))\<close>.
\<close>

record event =
  clipboardData :: bool
  targetScroll :: "(int \<times> int) option"

text \<open>
  \<open>window.getSelection()\<close>: the clone of the contents of its first range (there is none when
  the selection holds no range, and \<open>getRangeAt(0)\<close> then raises), and its text.
\<close>

record domSelection =
  rangeContents :: "node list option"
  selectionText :: string

text \<open>
  Functions of the repository that the handlers call and that are not under src/; they are
  parameters of the model. \<open>serialise\<close> is
  \<open>JSON.stringify(convertFromDraftStateToRaw(ContentState.createFromBlockArray(blocks)))\<close>.
\<close>

record collaborators =
  getFragmentFromSelection :: "editorState \<Rightarrow> block list option"
  serialise :: "block list \<Rightarrow> string"
  removeRange :: "block list \<Rightarrow> selectionState \<Rightarrow> string \<Rightarrow> block list"
  push :: "editorState \<Rightarrow> block list \<Rightarrow> string \<Rightarrow> editorState"

text \<open>The calls a handler makes on the editor and on the event, in the order it makes them.\<close>

datatype effect =
    PreventDefault
  | SetClipboard "block list option"
  | SetMode string
  | SetData string string
  | RestoreEditorDOM "(int \<times> int) option"
  | ExitCurrentMode
  | Update editorState

text \<open>The closure handed to \<open>setTimeout\<close>, with the two locals it captures.\<close>

datatype callback = Recovery "(int \<times> int) option" editorState

record outcome =
  effects :: "effect list"
  timers :: "callback list"
  thrown :: "exn option"

section \<open>Block identity remapping\<close>

text \<open>\<open>keySeq().skipUntil(item === startKey).takeUntil(item === endKey).concat([endKey])\<close>\<close>

definition selectedBlockKeys :: "string list \<Rightarrow> string \<Rightarrow> string \<Rightarrow> string list" where
  "selectedBlockKeys keys startKey endKey =
     takeWhile (\<lambda>item. item \<noteq> endKey) (dropWhile (\<lambda>item. item \<noteq> startKey) keys) @ [endKey]"

text \<open>\<open>fragmentKeys[index]\<close> as a property name: past the end it is \<open>undefined\<close>.\<close>

definition propertyAt :: "string list \<Rightarrow> nat \<Rightarrow> string" where
  "propertyAt xs i = (if i < length xs then xs ! i else ''undefined'')"

fun keyMapFrom :: "nat \<Rightarrow> string list \<Rightarrow> (string \<rightharpoonup> string) \<Rightarrow> string list \<Rightarrow> (string \<rightharpoonup> string)" where
  "keyMapFrom index fragmentKeys acc [] = acc"
| "keyMapFrom index fragmentKeys acc (item # rest) =
     keyMapFrom (Suc index) fragmentKeys (acc(propertyAt fragmentKeys index \<mapsto> item)) rest"

definition keyMap :: "string list \<Rightarrow> string list \<Rightarrow> (string \<rightharpoonup> string)" where
  "keyMap fragmentKeys selected = keyMapFrom 0 fragmentKeys Map.empty selected"

text \<open>\<open>keyMap[item] + '-0-0'\<close>, the value the selector asks \<open>data-offset-key\<close> to have.\<close>

definition offsetKey :: "(string \<rightharpoonup> string) \<Rightarrow> string \<Rightarrow> string" where
  "offsetKey km item = (case km item of None \<Rightarrow> ''undefined'' | Some k \<Rightarrow> k) @ ''-0-0''"

text \<open>\<open>fragment.getIn([item, 'text'], '')\<close>\<close>

definition getInText :: "block list \<Rightarrow> string \<Rightarrow> string" where
  "getInText fragment item =
     (case find (\<lambda>b. getKey b = item) fragment of
        None \<Rightarrow> []
      | Some b \<Rightarrow> (case blockText b of None \<Rightarrow> [] | Some t \<Rightarrow> t))"

definition elementFor :: "element \<Rightarrow> (string \<rightharpoonup> string) \<Rightarrow> block list \<Rightarrow> string \<Rightarrow> element" where
  "elementFor el km fragment item =
     (case querySelectorBlock el (offsetKey km item) of
        Some found \<Rightarrow> found
      | None \<Rightarrow> setInnerHTML (createElement ''div'') (getInText fragment item))"

definition blockKeyToElementMap ::
  "element \<Rightarrow> (string \<rightharpoonup> string) \<Rightarrow> block list \<Rightarrow> (string \<rightharpoonup> element)" where
  "blockKeyToElementMap el km fragment =
     foldl (\<lambda>acc item. acc(item \<mapsto> elementFor el km fragment item)) Map.empty (map getKey fragment)"

section \<open>The handlers\<close>

text \<open>
  The parts of the body of \<open>if (e.clipboardData && fragment)\<close>, the same text in
  editOnCopy.js (lines 45 to 145) and in both copies of editOnCut.js. \<open>content\<close> is built from
  the fragment's block array and walks the same blocks, so the fragment stands for it.

  \<open>fragmentElt\<close>: the container that receives the cloned range, the serialised content and
  the style (lines 49 to 56).
\<close>

definition fragmentElt :: "collaborators \<Rightarrow> block list \<Rightarrow> node list \<Rightarrow> element" where
  "fragmentElt C fragment cloned =
     (let serialisedContent = serialise C fragment;
          e0 = createElement ''div'';
          e1 = appendChildren e0 cloned;
          e2 = setAttribute e1 ''data-editor-content'' serialisedContent
      in setAttribute e2 ''style'' ''white-space: pre-wrap;'')"

text \<open>\<open>el\<close>: the clone of the container, less its non-editable descendants (lines 59 to 65).\<close>

definition elOf :: "bool \<Rightarrow> collaborators \<Rightarrow> block list \<Rightarrow> node list \<Rightarrow> element" where
  "elOf deep C fragment cloned = removeNonEditableIn (cloneNode deep (fragmentElt C fragment cloned))"

text \<open>\<open>keyMap\<close> as the handler computes it from the editor state and the fragment (lines 68 to 78).\<close>

definition keyMapOf :: "editorState \<Rightarrow> block list \<Rightarrow> (string \<rightharpoonup> string)" where
  "keyMapOf es fragment =
     (let fragmentKeys = map getKey fragment;
          startKey = getStartKey (getSelection es);
          endKey = getEndKey (getSelection es);
          selected = selectedBlockKeys (map getKey (getCurrentContent es)) startKey endKey
      in keyMap fragmentKeys selected)"

text \<open>
  \<open>outputElement\<close> once \<open>inner.html\<close> has been assigned to its \<open>innerHTML\<close> (lines 88, 89 and
  142). The second \<open>setAttribute('style', ...)\<close> of line 90 is made on \<open>fragmentElt\<close>, which
  has that value already and is not read again; \<open>outputElement\<close> gets no style.
\<close>

definition outputElement :: "collaborators \<Rightarrow> block list \<Rightarrow> string \<Rightarrow> element" where
  "outputElement C fragment innerHtml =
     setInnerHTML
       (setAttribute (createElement ''div'') ''data-editor-content'' (serialise C fragment))
       innerHtml"

text \<open>
  The whole body: the calls made, and the exception that ended it, if any. \<open>getRangeAt(0)\<close>
  raises before the first write when the selection holds no range.
\<close>

definition clipboardBlock ::
  "platform \<Rightarrow> collaborators \<Rightarrow> editorState \<Rightarrow> block list \<Rightarrow> domSelection \<Rightarrow> effect list \<times> exn option" where
  "clipboardBlock P C es fragment W =
     (case rangeContents W of
        None \<Rightarrow> ([], Some IndexSizeError)
      | Some cloned \<Rightarrow>
          (let plain = SetData ''text/plain'' (selectionText W);
               el = elOf True C fragment cloned;
               captured = SetData ''text/html'' (outerHTML P el);
               em = blockKeyToElementMap el (keyMapOf es fragment) fragment
           in case inner P em fragment of
                Inl x \<Rightarrow> ([plain, captured], Some x)
              | Inr r \<Rightarrow>
                  ([plain, captured,
                    SetData ''text/html'' (outerHTML P (outputElement C fragment (html r))),
                    PreventDefault], None)))"

definition editOnCopy ::
  "platform \<Rightarrow> collaborators \<Rightarrow> editor \<Rightarrow> event \<Rightarrow> domSelection \<Rightarrow> outcome" where
  "editOnCopy P C ed e W =
     (let es = latestEditorState ed;
          sel = getSelection es
      in if isCollapsed sel
         then \<lparr>effects = [PreventDefault], timers = [], thrown = None\<rparr>
         else
           (let fragment = getFragmentFromSelection C (latestEditorState ed);
                cache = [SetClipboard fragment]
            in case fragment of
                 None \<Rightarrow> \<lparr>effects = cache, timers = [], thrown = None\<rparr>
               | Some blocks \<Rightarrow>
                   if clipboardData e
                   then (case clipboardBlock P C es blocks W of
                           (calls, x) \<Rightarrow> \<lparr>effects = cache @ calls, timers = [], thrown = x\<rparr>)
                   else \<lparr>effects = cache, timers = [], thrown = None\<rparr>))"

text \<open>
  The other build of the copy handler (src/unnamed/part_001, lines 24 to 64): the clone
  is shallow and nothing is reconstructed.
\<close>

definition clipboardBlock_simple ::
  "platform \<Rightarrow> collaborators \<Rightarrow> block list \<Rightarrow> domSelection \<Rightarrow> effect list \<times> exn option" where
  "clipboardBlock_simple P C fragment W =
     (case rangeContents W of
        None \<Rightarrow> ([], Some IndexSizeError)
      | Some cloned \<Rightarrow>
          (let plain = SetData ''text/plain'' (selectionText W);
               el = elOf False C fragment cloned
           in ([plain, SetData ''text/html'' (outerHTML P el), PreventDefault], None)))"

definition editOnCopy_simple ::
  "platform \<Rightarrow> collaborators \<Rightarrow> editor \<Rightarrow> event \<Rightarrow> domSelection \<Rightarrow> outcome" where
  "editOnCopy_simple P C ed e W =
     (let es = latestEditorState ed;
          sel = getSelection es
      in if isCollapsed sel
         then \<lparr>effects = [PreventDefault], timers = [], thrown = None\<rparr>
         else
           (let fragment = getFragmentFromSelection C (latestEditorState ed);
                cache = [SetClipboard fragment]
            in case fragment of
                 None \<Rightarrow> \<lparr>effects = cache, timers = [], thrown = None\<rparr>
               | Some blocks \<Rightarrow>
                   if clipboardData e
                   then (case clipboardBlock_simple P C blocks W of
                           (calls, x) \<Rightarrow> \<lparr>effects = cache @ calls, timers = [], thrown = x\<rparr>)
                   else \<lparr>effects = cache, timers = [], thrown = None\<rparr>))"

text \<open>\<open>removeFragment\<close> (editOnCut.js lines 187 to 194).\<close>

definition removeFragment :: "collaborators \<Rightarrow> editorState \<Rightarrow> editorState" where
  "removeFragment C es =
     (let newContent = removeRange C (getCurrentContent es) (getSelection es) ''forward''
      in push C es newContent ''remove-range'')"

text \<open>
  \<open>editOnCut\<close> (editOnCut.js lines 36 to 185, and its compiled copy src/unnamed/part_000).
  The timer is registered before the clipboard block runs, so it stays registered when that
  block raises.
\<close>

definition editOnCut ::
  "platform \<Rightarrow> collaborators \<Rightarrow> editor \<Rightarrow> event \<Rightarrow> domSelection \<Rightarrow> outcome" where
  "editOnCut P C ed e W =
     (let es = latestEditorState ed;
          sel = getSelection es;
          scrollPosition = targetScroll e
      in if isCollapsed sel
         then \<lparr>effects = [PreventDefault], timers = [], thrown = None\<rparr>
         else
           (let fragment = getFragmentFromSelection C es;
                before = [SetClipboard fragment, SetMode ''cut''];
                timer = [Recovery scrollPosition es]
            in case fragment of
                 None \<Rightarrow> \<lparr>effects = before, timers = timer, thrown = None\<rparr>
               | Some blocks \<Rightarrow>
                   if clipboardData e
                   then (case clipboardBlock P C es blocks W of
                           (calls, x) \<Rightarrow> \<lparr>effects = before @ calls, timers = timer, thrown = x\<rparr>)
                   else \<lparr>effects = before, timers = timer, thrown = None\<rparr>))"

text \<open>
  The body of the timer callback, run against the editor as it is when the timer fires.
  The callback reads its captured locals only.
\<close>

fun runCallback :: "collaborators \<Rightarrow> editor \<Rightarrow> callback \<Rightarrow> effect list" where
  "runCallback C edAtFire (Recovery scrollPosition es) =
     [RestoreEditorDOM scrollPosition, ExitCurrentMode, Update (removeFragment C es)]"

text \<open>
  One event on the single-threaded event loop: the handler's task runs to its end (or to
  the exception that ends it), then every timer it registered fires, once, in order.
\<close>

definition runEvent :: "collaborators \<Rightarrow> outcome \<Rightarrow> editor \<Rightarrow> effect list" where
  "runEvent C out edAtFire = effects out @ concat (map (runCallback C edAtFire) (timers out))"

text \<open>The calls of the timer callback, as opposed to those of the handler's own task.\<close>

fun isRecoveryCall :: "effect \<Rightarrow> bool" where
  "isRecoveryCall (RestoreEditorDOM _) = True"
| "isRecoveryCall ExitCurrentMode = True"
| "isRecoveryCall (Update _) = True"
| "isRecoveryCall _ = False"

text \<open>
  What a sequence of calls leaves on a channel of the external clipboard (the last value
  written to it, if any), and in the clipboard cache.
\<close>

definition payload :: "effect list \<Rightarrow> string \<Rightarrow> string option" where
  "payload calls channel =
     foldl (\<lambda>p c. case c of SetData t d \<Rightarrow> if t = channel then Some d else p | _ \<Rightarrow> p) None calls"

definition clipboardCacheAfter :: "effect list \<Rightarrow> block list option \<Rightarrow> block list option" where
  "clipboardCacheAfter calls slot =
     foldl (\<lambda>s c. case c of SetClipboard f \<Rightarrow> f | _ \<Rightarrow> s) slot calls"

section \<open>The reconstruction as the specification words it\<close>

text \<open>
  The fold of the specification (section 4.6) over the blocks' (indent, markup) pairs:
  wrap the markup in a list item when \<open>wrap d\<close> holds, prefix \<open>sunk\<close> opening tags when
  \<open>sunk > 0\<close>, \<open>|sunk|\<close> closing tags when \<open>sunk < 0\<close>, nothing when \<open>sunk = 0\<close>, append, and
  remember \<open>d\<close>. The specification wraps when \<open>d > 0\<close>.
\<close>

fun nestedFold :: "(int \<Rightarrow> bool) \<Rightarrow> int \<Rightarrow> string \<Rightarrow> (int \<times> string) list \<Rightarrow> string" where
  "nestedFold wrap lastI out [] = out"
| "nestedFold wrap lastI out ((d, m) # rest) =
     (let w = (if wrap d then ''<li>'' @ m @ ''</li>'' else m);
          sunk = d - lastI;
          p = (if sunk > 0 then repeat ''<ul>'' (nat sunk)
               else if sunk < 0 then repeat ''</ul>'' (nat \<bar>sunk\<bar>)
               else [])
      in nestedFold wrap d (out @ p @ w) rest)"



definition markupOf :: "platform \<Rightarrow> (string \<rightharpoonup> element) \<Rightarrow> block \<Rightarrow> string" where
  "markupOf P em b = (case em (getKey b) of None \<Rightarrow> [] | Some e \<Rightarrow> outerHTML P e)"

definition indentMarkup ::
  "platform \<Rightarrow> (string \<rightharpoonup> element) \<Rightarrow> block list \<Rightarrow> (int \<times> string) list" where
  "indentMarkup P em bs = map (\<lambda>b. (getIndent b, markupOf P em b)) bs"

text \<open>Occurrences of a substring, and the opening list tags of a string less its closing ones.\<close>

fun countSub :: "string \<Rightarrow> string \<Rightarrow> nat" where
  "countSub pat [] = 0"
| "countSub pat (c # cs) = (if prefix pat (c # cs) then 1 else 0) + countSub pat cs"

definition ulBalance :: "string \<Rightarrow> int" where
  "ulBalance s = int (countSub ''<ul>'' s) - int (countSub ''</ul>'' s)"

text \<open>The balance the blocks' own markup brings along, which the fold passes through.\<close>

definition ownBalance :: "platform \<Rightarrow> (string \<rightharpoonup> element) \<Rightarrow> block list \<Rightarrow> int" where
  "ownBalance P em bs = sum_list (map (\<lambda>b. ulBalance (markupOf P em b)) bs)"

section \<open>Sample inputs\<close>

text \<open>
  A browser-like platform: the serialiser's escaping of the two characters that matter in
  each position, and a parser that gives well-formed markup back as it was written.
\<close>

definition escapeAttrSample :: "string \<Rightarrow> string" where
  "escapeAttrSample s =
     concat (map (\<lambda>c. if c = CHR ''&'' then ''&amp;'' else if c = CHR 0x22 then ''&quot;'' else [c]) s)"

definition escapeTextSample :: "string \<Rightarrow> string" where
  "escapeTextSample s =
     concat (map (\<lambda>c. if c = CHR ''&'' then ''&amp;'' else if c = CHR ''<'' then ''&lt;''
                      else if c = CHR ''>'' then ''&gt;'' else [c]) s)"

definition samplePlatform :: platform where
  "samplePlatform = \<lparr>escapeAttr = escapeAttrSample, escapeText = escapeTextSample, reparse = (\<lambda>s. s)\<rparr>"

definition blockElement :: "string \<Rightarrow> string \<Rightarrow> element" where
  "blockElement k t =
     \<lparr>tagName = ''div'',
      attributes = [(''data-block'', ''true''), (''data-offset-key'', k @ ''-0-0'')],
      childNodes = [TextNode t]\<rparr>"

definition blockNode :: "string \<Rightarrow> string \<Rightarrow> node" where
  "blockNode k t =
     ElementNode ''div'' [(''data-block'', ''true''), (''data-offset-key'', k @ ''-0-0'')] [TextNode t]"

definition sampleMap :: "string \<rightharpoonup> element" where
  "sampleMap = map_of [(''f1'', blockElement ''a1'' ''A''), (''f2'', blockElement ''b2'' ''B''),
                       (''f3'', blockElement ''c3'' ''C'')]"

definition blockAt :: "string \<Rightarrow> string \<Rightarrow> int \<Rightarrow> block" where
  "blockAt k t d = \<lparr>getKey = k, blockText = Some t, indent = Some d\<rparr>"

definition flatBlocks :: "block list" where
  "flatBlocks = [\<lparr>getKey = ''f1'', blockText = Some ''A'', indent = None\<rparr>,
                 blockAt ''f2'' ''B'' 0, blockAt ''f3'' ''C'' 0]"

definition jumpBlocks :: "block list" where
  "jumpBlocks = [blockAt ''f1'' ''A'' 0, blockAt ''f2'' ''B'' 2]"


definition nestedBlocks :: "block list" where
  "nestedBlocks = [blockAt ''f1'' ''A'' 0, blockAt ''f2'' ''B'' 1, blockAt ''f3'' ''C'' 0]"

text \<open>
  A document of five blocks with the middle three selected, the fragment the extractor
  returns for it (fresh keys), and the rendered selection as the browser clones it.
\<close>

definition sampleDocument :: "block list" where
  "sampleDocument = [blockAt ''z0'' ''Z'' 0, blockAt ''a1'' ''A'' 0, blockAt ''b2'' ''B'' 1,
                     blockAt ''c3'' ''C'' 0, blockAt ''d4'' ''D'' 0]"

definition sampleSelection :: selectionState where
  "sampleSelection = \<lparr>getStartKey = ''a1'', getStartOffset = 0, getEndKey = ''c3'',
                      getEndOffset = 1, isCollapsed = False\<rparr>"

definition collapsedSelection :: selectionState where
  "collapsedSelection = \<lparr>getStartKey = ''a1'', getStartOffset = 1, getEndKey = ''a1'',
                         getEndOffset = 1, isCollapsed = True\<rparr>"

definition sampleEditor :: editor where
  "sampleEditor =
     \<lparr>latestEditorState = \<lparr>getCurrentContent = sampleDocument, getSelection = sampleSelection\<rparr>\<rparr>"

definition collapsedEditor :: editor where
  "collapsedEditor =
     \<lparr>latestEditorState = \<lparr>getCurrentContent = sampleDocument, getSelection = collapsedSelection\<rparr>\<rparr>"

definition laterEditor :: editor where
  "laterEditor =
     \<lparr>latestEditorState = \<lparr>getCurrentContent = [blockAt ''q9'' ''Q'' 0],
                           getSelection = collapsedSelection\<rparr>\<rparr>"

definition sampleFragment :: "block list" where
  "sampleFragment = [blockAt ''f1'' ''A'' 0, blockAt ''f2'' ''B'' 1, blockAt ''f3'' ''C'' 0]"

definition sampleExtract :: "editorState \<Rightarrow> block list option" where
  "sampleExtract es = (if isCollapsed (getSelection es) then None else Some sampleFragment)"

definition sampleSerialise :: "block list \<Rightarrow> string" where
  "sampleSerialise bs = ''{\"keys\":\"'' @ concat (map getKey bs) @ ''\"}''"

definition sampleRemoveRange :: "block list \<Rightarrow> selectionState \<Rightarrow> string \<Rightarrow> block list" where
  "sampleRemoveRange content sel direction =
     filter (\<lambda>b. getKey b \<notin> set (selectedBlockKeys (map getKey content) (getStartKey sel) (getEndKey sel)))
       content"

definition samplePush :: "editorState \<Rightarrow> block list \<Rightarrow> string \<Rightarrow> editorState" where
  "samplePush es content changeType = es\<lparr>getCurrentContent := content\<rparr>"

definition sampleCollaborators :: collaborators where
  "sampleCollaborators =
     \<lparr>getFragmentFromSelection = sampleExtract, serialise = sampleSerialise,
      removeRange = sampleRemoveRange, push = samplePush\<rparr>"

definition withClipboardData :: event where
  "withClipboardData = \<lparr>clipboardData = True, targetScroll = Some (0, 120)\<rparr>"

definition withoutClipboardData :: event where
  "withoutClipboardData = \<lparr>clipboardData = False, targetScroll = Some (0, 120)\<rparr>"

definition sampleDom :: domSelection where
  "sampleDom = \<lparr>rangeContents = Some [blockNode ''a1'' ''A'', blockNode ''b2'' ''B'',
                                        blockNode ''c3'' ''C''],
                selectionText = ''A\<newline>B\<newline>C''\<rparr>"

text \<open>The same selection with the second block's element missing from the clone.\<close>

definition partialDom :: domSelection where
  "partialDom = \<lparr>rangeContents = Some [blockNode ''a1'' ''A'', TextNode ''B'',
                                         blockNode ''c3'' ''C''],
                 selectionText = ''A\<newline>B\<newline>C''\<rparr>"

text \<open>The markup of the three sample block elements, written out.\<close>

definition markA :: string where
  "markA = ''<div data-block=\"true\" data-offset-key=\"a1-0-0\">A</div>''"

definition markB :: string where
  "markB = ''<div data-block=\"true\" data-offset-key=\"b2-0-0\">B</div>''"

definition markC :: string where
  "markC = ''<div data-block=\"true\" data-offset-key=\"c3-0-0\">C</div>''"

text \<open>
  The markup the sample selection puts on the text/html channel: the capture container
  with its content, the reconstruction, the rebuilt output element and the childless
  clone; and the editor state after the sample range has been removed.
\<close>

definition capturedSample :: string where
  "capturedSample =
     ''<div data-editor-content=\"{&quot;keys&quot;:&quot;f1f2f3&quot;}\" style=\"white-space: pre-wrap;\">''
     @ markA @ markB @ markC @ ''</div>''"

definition nestedSample :: string where
  "nestedSample = markA @ ''<ul><li>'' @ markB @ ''</li></ul>'' @ markC"

definition rebuiltSample :: string where
  "rebuiltSample =
     ''<div data-editor-content=\"{&quot;keys&quot;:&quot;f1f2f3&quot;}\">''
     @ nestedSample @ ''</div>''"


definition afterCutSample :: editorState where
  "afterCutSample = \<lparr>getCurrentContent = [blockAt ''z0'' ''Z'' 0, blockAt ''d4'' ''D'' 0],
                      getSelection = sampleSelection\<rparr>"

section \<open>Lemmas about the reduce\<close>

lemma innerStep_Some:
  "em (getKey b) = Some e \<Longrightarrow>
   innerStep P em content a b =
     Inr \<lparr>lastIndentation = getIndent b,
          html = nestedFold (\<lambda>d. d \<noteq> 0) (lastIndentation a) (html a) [(getIndent b, outerHTML P e)]\<rparr>"
  by (simp add: innerStep_def Let_def)

lemma reduce_inner_fold:
  "\<forall>b\<in>set bs. em (getKey b) \<noteq> None \<Longrightarrow>
   \<exists>r. reduceE (innerStep P em content) a bs = Inr r \<and>
       html r = nestedFold (\<lambda>d. d \<noteq> 0) (lastIndentation a) (html a) (indentMarkup P em bs) \<and>
       lastIndentation r = (if bs = [] then lastIndentation a else getIndent (last bs))"
proof (induction bs arbitrary: a)
  case Nil
  then show ?case by (simp add: indentMarkup_def)
next
  case (Cons b bs)
  then obtain e where e: "em (getKey b) = Some e" by auto
  let ?a' = "\<lparr>lastIndentation = getIndent b,
          html = nestedFold (\<lambda>d. d \<noteq> 0) (lastIndentation a) (html a) [(getIndent b, outerHTML P e)]\<rparr>"
  from Cons.prems have "\<forall>b\<in>set bs. em (getKey b) \<noteq> None" by simp
  from Cons.IH[OF this, of ?a'] obtain r where
    r: "reduceE (innerStep P em content) ?a' bs = Inr r"
       "html r = nestedFold (\<lambda>d. d \<noteq> 0) (lastIndentation ?a') (html ?a') (indentMarkup P em bs)"
       "lastIndentation r = (if bs = [] then lastIndentation ?a' else getIndent (last bs))"
    by blast
  show ?case
    using r e by (simp add: innerStep_Some indentMarkup_def markupOf_def Let_def)
qed




lemma prefix_boundary:
  assumes "c \<notin> set ps"
  shows "prefix ps (a @ c # b) \<longleftrightarrow> prefix ps a"
proof
  assume "prefix ps (a @ c # b)"
  then consider "prefix ps a" | us where "ps = a @ us" "prefix us (c # b)"
    by (auto simp: prefix_append)
  then show "prefix ps a"
  proof cases
    case 1 then show ?thesis .
  next
    case 2
    with assms have "us = []" by (cases us) auto
    with 2 show ?thesis by simp
  qed
next
  assume "prefix ps a"
  then show "prefix ps (a @ c # b)" by (simp add: prefix_prefix)
qed

lemma countSub_append:
  assumes "c \<notin> set ps"
  shows "countSub (p # ps) (a @ c # b) = countSub (p # ps) a + countSub (p # ps) (c # b)"
proof (induction a)
  case Nil
  show ?case by simp
next
  case (Cons x a)
  have "prefix (p # ps) (x # a @ c # b) \<longleftrightarrow> prefix (p # ps) (x # a)"
    using prefix_boundary[OF assms, of a b] by simp
  with Cons show ?case by simp
qed

lemma countSub_ul_append:
  "countSub ''<ul>'' (a @ CHR ''<'' # b) = countSub ''<ul>'' a + countSub ''<ul>'' (CHR ''<'' # b)"
  by (rule countSub_append) simp

lemma countSub_cul_append:
  "countSub ''</ul>'' (a @ CHR ''<'' # b) = countSub ''</ul>'' a + countSub ''</ul>'' (CHR ''<'' # b)"
  by (rule countSub_append) simp

lemma ulBalance_append:
  "ulBalance (a @ CHR ''<'' # b) = ulBalance a + ulBalance (CHR ''<'' # b)"
  by (simp add: ulBalance_def countSub_ul_append countSub_cul_append)

lemma ulBalance_Nil: "ulBalance [] = 0"
  by (simp add: ulBalance_def)

lemma ulBalance_open: "ulBalance (''<ul>'' @ CHR ''<'' # b) = 1 + ulBalance (CHR ''<'' # b)"
  using ulBalance_append[of "''<ul>''" b] by (simp add: ulBalance_def)

lemma ulBalance_close: "ulBalance (''</ul>'' @ CHR ''<'' # b) = ulBalance (CHR ''<'' # b) - 1"
  using ulBalance_append[of "''</ul>''" b] by (simp add: ulBalance_def)


lemma repeat_starts:
  "\<exists>r. repeat (CHR ''<'' # t) n @ CHR ''<'' # b = CHR ''<'' # r"
  by (cases n) (simp_all add: repeat_def)

lemma ulBalance_repeat:
  "ulBalance (repeat (CHR ''<'' # t) n @ CHR ''<'' # b) =
     int n * ulBalance (CHR ''<'' # t) + ulBalance (CHR ''<'' # b)"
proof (induction n)
  case 0
  show ?case by (simp add: repeat_def)
next
  case (Suc n)
  obtain r where r: "repeat (CHR ''<'' # t) n @ CHR ''<'' # b = CHR ''<'' # r"
    using repeat_starts by blast
  have "repeat (CHR ''<'' # t) (Suc n) @ CHR ''<'' # b = (CHR ''<'' # t) @ CHR ''<'' # r"
    using r by (simp add: repeat_def)
  then have "ulBalance (repeat (CHR ''<'' # t) (Suc n) @ CHR ''<'' # b) =
      ulBalance (CHR ''<'' # t) + ulBalance (CHR ''<'' # r)"
    by (simp only: ulBalance_append)
  also have "ulBalance (CHR ''<'' # r) = int n * ulBalance (CHR ''<'' # t) + ulBalance (CHR ''<'' # b)"
    using Suc r by simp
  finally show ?case by (simp add: algebra_simps)
qed

lemma ulBalance_tags:
  "ulBalance ''<ul>'' = 1" "ulBalance ''</ul>'' = - 1" "ulBalance ''<li>'' = 0" "ulBalance ''</li>'' = 0"
  by (simp_all add: ulBalance_def)

lemma outerHTML_starts: "\<exists>r. outerHTML P e = CHR ''<'' # r"
  by (simp add: outerHTML_def)

lemma ulBalance_li:
  "ulBalance (''<li>'' @ CHR ''<'' # r @ ''</li>'') = ulBalance (CHR ''<'' # r)"
proof -
  have "ulBalance (''<li>'' @ CHR ''<'' # (r @ ''</li>'')) = ulBalance ''<li>'' + ulBalance (CHR ''<'' # (r @ ''</li>''))"
    by (rule ulBalance_append)
  moreover have "ulBalance ((CHR ''<'' # r) @ CHR ''<'' # ''/li>'') = ulBalance (CHR ''<'' # r) + ulBalance ''</li>''"
    by (rule ulBalance_append)
  ultimately show ?thesis by (simp add: ulBalance_tags)
qed

lemma innerStep_balance:
  assumes "em (getKey b) = Some e"
  shows "\<exists>r. innerStep P em content a b = Inr r \<and> lastIndentation r = getIndent b \<and>
    ulBalance (html r) = ulBalance (html a) + (getIndent b - lastIndentation a) + ulBalance (outerHTML P e)"
proof -
  obtain m where m: "outerHTML P e = CHR ''<'' # m" using outerHTML_starts by blast
  define m1 where "m1 = (if getIndent b \<noteq> 0 then ''<li>'' @ outerHTML P e @ ''</li>'' else outerHTML P e)"
  obtain w where w: "m1 = CHR ''<'' # w" by (cases "getIndent b = 0") (simp_all add: m1_def m)
  have bal1: "ulBalance m1 = ulBalance (outerHTML P e)"
    using ulBalance_li[of m] by (simp add: m1_def m)
  define s where "s = getIndent b - lastIndentation a"
  define m3 where "m3 = (if s < 0 then repeat ''</ul>'' (nat (- s)) @ (if s > 0 then repeat ''<ul>'' (nat s) @ m1 else m1)
                         else (if s > 0 then repeat ''<ul>'' (nat s) @ m1 else m1))"
  have bal3: "ulBalance m3 = s + ulBalance m1"
    using ulBalance_repeat[of "''ul>''" "nat s" w] ulBalance_repeat[of "''/ul>''" "nat (- s)" w]
    by (simp add: m3_def w ulBalance_tags)
  have "\<exists>z. m3 = CHR ''<'' # z"
  proof -
    consider "s < 0" | "s = 0" | "0 < s" by linarith
    then show ?thesis
    proof cases
      case 1
      then show ?thesis using repeat_starts[of "''/ul>''" "nat (- s)" w] by (simp add: m3_def w)
    next
      case 2
      then show ?thesis by (simp add: m3_def w)
    next
      case 3
      then show ?thesis using repeat_starts[of "''ul>''" "nat s" w] by (simp add: m3_def w)
    qed
  qed
  then obtain z where z: "m3 = CHR ''<'' # z" by blast
  have "innerStep P em content a b = Inr \<lparr>lastIndentation = getIndent b, html = html a @ m3\<rparr>"
    using assms by (simp add: innerStep_def Let_def m3_def m1_def s_def)
  moreover have "ulBalance (html a @ m3) = ulBalance (html a) + ulBalance m3"
    unfolding z by (rule ulBalance_append)
  ultimately show ?thesis using bal3 bal1 by (simp add: s_def)
qed

lemma reduce_balance:
  "\<forall>b\<in>set bs. em (getKey b) \<noteq> None \<Longrightarrow>
   \<exists>r. reduceE (innerStep P em content) a bs = Inr r \<and>
       ulBalance (html r) - ownBalance P em bs - lastIndentation r =
         ulBalance (html a) - lastIndentation a \<and>
       lastIndentation r = (if bs = [] then lastIndentation a else getIndent (last bs))"
proof (induction bs arbitrary: a)
  case Nil
  show ?case by (simp add: ownBalance_def)
next
  case (Cons b bs)
  then obtain e where e: "em (getKey b) = Some e" by auto
  from e innerStep_balance[of em b e P content a] obtain a' where
    a': "innerStep P em content a b = Inr a'" "lastIndentation a' = getIndent b"
        "ulBalance (html a') = ulBalance (html a) + (getIndent b - lastIndentation a) + ulBalance (outerHTML P e)"
    by blast
  from Cons.prems have "\<forall>b\<in>set bs. em (getKey b) \<noteq> None" by simp
  from Cons.IH[OF this, of a'] obtain r where
    r: "reduceE (innerStep P em content) a' bs = Inr r"
       "ulBalance (html r) - ownBalance P em bs - lastIndentation r = ulBalance (html a') - lastIndentation a'"
       "lastIndentation r = (if bs = [] then lastIndentation a' else getIndent (last bs))"
    by blast
  show ?case
    using r a' e by (simp add: ownBalance_def markupOf_def)
qed

lemma sample_markup:
  "outerHTML samplePlatform (blockElement ''a1'' ''A'') = markA"
  "outerHTML samplePlatform (blockElement ''b2'' ''B'') = markB"
  "outerHTML samplePlatform (blockElement ''c3'' ''C'') = markC"
  by (simp_all add: outerHTML_def blockElement_def samplePlatform_def attrText_def
        escapeAttrSample_def escapeTextSample_def voidElements_def markA_def markB_def markC_def)

lemma sampleMap_simps:
  "sampleMap ''f1'' = Some (blockElement ''a1'' ''A'')"
  "sampleMap ''f2'' = Some (blockElement ''b2'' ''B'')"
  "sampleMap ''f3'' = Some (blockElement ''c3'' ''C'')"
  by (simp_all add: sampleMap_def)

lemma getIndent_blockAt: "getIndent (blockAt k t d) = d" "getKey (blockAt k t d) = k"
  by (simp_all add: getIndent_def blockAt_def)

section \<open>C1: the reconstructor as a fold\<close>




text \<open>The specification's own single-level example, indents 0, 1, 0, on the code.\<close>

lemma inner_nested_example:
  "inner samplePlatform sampleMap nestedBlocks =
     Inr \<lparr>lastIndentation = 0, html = markA @ ''<ul><li>'' @ markB @ ''</li></ul>'' @ markC\<rparr>"
  by (simp add: inner_def innerStep_def nestedBlocks_def getIndent_blockAt sampleMap_simps
        sample_markup Let_def repeat_def)

section \<open>C2: a jump of two levels\<close>

text \<open>
  C2, as the code has it. For two blocks with indents 0 and 2 the reduce returns the first
  block's markup, two opening list tags in one step and the second block's markup as one
  list item, with no empty item between them; it emits no closing list tag, so the
  markup is not the balanced string of the claim.
\<close>

theorem inner_jump_two_levels:
  assumes "getIndent b0 = 0" and "getIndent b1 = 2"
    and "em (getKey b0) = Some e0" and "em (getKey b1) = Some e1"
  shows "\<exists>r. inner P em [b0, b1] = Inr r \<and>
           html r = outerHTML P e0 @ ''<ul><ul><li>'' @ outerHTML P e1 @ ''</li>'' \<and>
           html r \<noteq> outerHTML P e0 @ ''<ul><ul><li>'' @ outerHTML P e1 @ ''</li></ul></ul>''"
proof -
  have "inner P em [b0, b1] =
     Inr \<lparr>lastIndentation = 2, html = outerHTML P e0 @ ''<ul><ul><li>'' @ outerHTML P e1 @ ''</li>''\<rparr>"
    using assms by (simp add: inner_def innerStep_def Let_def repeat_def numeral_2_eq_2)
  then show ?thesis by simp
qed

text \<open>The two sample blocks with indents 0 and 2.\<close>

theorem inner_jump_two_levels_witness:
  "getIndent (blockAt ''f1'' ''A'' 0) = 0 \<and> getIndent (blockAt ''f2'' ''B'' 2) = 2 \<and>
   sampleMap ''f1'' = Some (blockElement ''a1'' ''A'') \<and>
   sampleMap ''f2'' = Some (blockElement ''b2'' ''B'') \<and>
   inner samplePlatform sampleMap jumpBlocks =
     Inr \<lparr>lastIndentation = 2, html = markA @ ''<ul><ul><li>'' @ markB @ ''</li>''\<rparr>"
proof -
  from inner_jump_two_levels[of "blockAt ''f1'' ''A'' 0" "blockAt ''f2'' ''B'' 2" sampleMap
      "blockElement ''a1'' ''A''" "blockElement ''b2'' ''B''" samplePlatform]
  obtain r where r: "inner samplePlatform sampleMap jumpBlocks = Inr r"
      "html r = markA @ ''<ul><ul><li>'' @ markB @ ''</li>''"
    by (auto simp: getIndent_blockAt sampleMap_simps sample_markup jumpBlocks_def)
  have "lastIndentation r = 2"
    using reduce_inner_fold[of jumpBlocks sampleMap samplePlatform jumpBlocks
        "\<lparr>lastIndentation = 0, html = []\<rparr>"] r(1)
    by (simp add: inner_def jumpBlocks_def getIndent_blockAt sampleMap_simps)
  with r show ?thesis by (cases r) (simp add: getIndent_blockAt sampleMap_simps)
qed

text \<open>The same two blocks against the balanced string of the claim: the closing tags are not there.\<close>

theorem inner_jump_counterexample:
  "inner samplePlatform sampleMap jumpBlocks =
     Inr \<lparr>lastIndentation = 2, html = markA @ ''<ul><ul><li>'' @ markB @ ''</li>''\<rparr> \<and>
   markA @ ''<ul><ul><li>'' @ markB @ ''</li>'' \<noteq> markA @ ''<ul><ul><li>'' @ markB @ ''</li></ul></ul>''"
  by (simp add: inner_def innerStep_def jumpBlocks_def getIndent_blockAt sampleMap_simps
        sample_markup Let_def repeat_def numeral_2_eq_2)

section \<open>C3: the balance of list tags\<close>

text \<open>
  C3. For every fragment and every element map that holds an element for each block: after
  the reduce has processed block \<open>i\<close>, the occurrences of the opening list tag in the
  accumulated markup less those of the closing list tag, not counting what the blocks'
  own markup brings along, equal that block's indent. The markup the reduce returns is the
  accumulator after the last block, with nothing appended: it has as many unclosed
  opening tags as the last block's indent.
\<close>

theorem inner_ul_balance:
  assumes "\<forall>b\<in>set content. em (getKey b) \<noteq> None" and "i < length content"
  shows "(\<exists>r. reduceE (innerStep P em content) \<lparr>lastIndentation = 0, html = []\<rparr>
                (take (Suc i) content) = Inr r \<and>
              ulBalance (html r) - ownBalance P em (take (Suc i) content) = getIndent (content ! i)) \<and>
         (\<exists>r. inner P em content = Inr r \<and>
              ulBalance (html r) - ownBalance P em content = getIndent (last content))"
proof -
  let ?a = "\<lparr>lastIndentation = 0, html = []\<rparr>"
  have ne: "take (Suc i) content \<noteq> []" using assms(2) by (cases content) auto
  have lst: "last (take (Suc i) content) = content ! i"
    using assms(2) by (simp add: take_Suc_conv_app_nth)
  have "\<forall>b\<in>set (take (Suc i) content). em (getKey b) \<noteq> None"
    using assms(1) by (meson in_set_takeD)
  from reduce_balance[OF this, of P content ?a]
  have part: "\<exists>r. reduceE (innerStep P em content) ?a (take (Suc i) content) = Inr r \<and>
              ulBalance (html r) - ownBalance P em (take (Suc i) content) = getIndent (content ! i)"
    using ne lst by (auto simp: ulBalance_Nil)
  have "content \<noteq> []" using assms(2) by auto
  with reduce_balance[OF assms(1), of P content ?a]
  have whole: "\<exists>r. inner P em content = Inr r \<and>
              ulBalance (html r) - ownBalance P em content = getIndent (last content)"
    by (auto simp: ulBalance_Nil inner_def)
  from part whole show ?thesis by blast
qed

text \<open>
  Indents 0 and 2: after the second block the markup holds two opening list tags and no
  closing one, and that markup is what the reduce returns.
\<close>

theorem inner_ul_balance_witness:
  "list_all (\<lambda>b. sampleMap (getKey b) \<noteq> None) jumpBlocks \<and> 1 < length jumpBlocks \<and>
   ownBalance samplePlatform sampleMap jumpBlocks = 0 \<and>
   getIndent (jumpBlocks ! 1) = 2 \<and>
   (\<exists>r. inner samplePlatform sampleMap jumpBlocks = Inr r \<and> ulBalance (html r) = 2)"
proof -
  have keys: "\<forall>b\<in>set jumpBlocks. sampleMap (getKey b) \<noteq> None"
    by (simp add: jumpBlocks_def sampleMap_simps getIndent_blockAt)
  have len: "1 < length jumpBlocks" by (simp add: jumpBlocks_def)
  have own: "ownBalance samplePlatform sampleMap jumpBlocks = 0"
    by (simp add: ownBalance_def jumpBlocks_def markupOf_def sampleMap_simps getIndent_blockAt
          sample_markup ulBalance_def markA_def markB_def)
  have ind: "getIndent (jumpBlocks ! 1) = 2" "getIndent (last jumpBlocks) = 2"
    by (simp_all add: jumpBlocks_def getIndent_blockAt)
  from inner_ul_balance[OF keys len, of samplePlatform] own ind
  have "\<exists>r. inner samplePlatform sampleMap jumpBlocks = Inr r \<and> ulBalance (html r) = 2"
    by auto
  with keys len own ind show ?thesis by (simp add: list_all_iff)
qed

section \<open>Lemmas about the handlers\<close>

lemma foldl_upd:
  "foldl (\<lambda>acc item. acc(item \<mapsto> f item)) m ks k = (if k \<in> set ks then Some (f k) else m k)"
  by (induction ks arbitrary: m) auto

lemma blockKeyToElementMap_at:
  "b \<in> set fragment \<Longrightarrow>
   blockKeyToElementMap el km fragment (getKey b) = Some (elementFor el km fragment (getKey b))"
  by (simp add: blockKeyToElementMap_def foldl_upd)

lemma blockKeyToElementMap_total:
  "\<forall>b\<in>set fragment. blockKeyToElementMap el km fragment (getKey b) \<noteq> None"
  by (simp add: blockKeyToElementMap_at)

lemma inner_returns:
  "\<exists>r. inner P (blockKeyToElementMap el km fragment) fragment = Inr r"
proof -
  have "\<forall>b\<in>set fragment. blockKeyToElementMap el km fragment (getKey b) \<noteq> None"
    by (rule blockKeyToElementMap_total)
  from reduce_inner_fold[OF this, where P = P and content = fragment
      and a = "\<lparr>lastIndentation = 0, html = []\<rparr>"]
  show ?thesis by (auto simp: inner_def)
qed

lemma clipboardBlock_None:
  "rangeContents W = None \<Longrightarrow> clipboardBlock P C es fragment W = ([], Some IndexSizeError)"
  by (simp add: clipboardBlock_def)

lemma clipboardBlock_Some:
  assumes "rangeContents W = Some cloned"
  shows "\<exists>r. inner P (blockKeyToElementMap (elOf True C fragment cloned) (keyMapOf es fragment) fragment)
               fragment = Inr r \<and>
             clipboardBlock P C es fragment W =
               ([SetData ''text/plain'' (selectionText W),
                 SetData ''text/html'' (outerHTML P (elOf True C fragment cloned)),
                 SetData ''text/html'' (outerHTML P (outputElement C fragment (html r))),
                 PreventDefault], None)"
proof -
  obtain r where "inner P (blockKeyToElementMap (elOf True C fragment cloned) (keyMapOf es fragment) fragment)
               fragment = Inr r"
    using inner_returns by blast
  then show ?thesis using assms by (simp add: clipboardBlock_def Let_def)
qed


lemma clipboardBlock_prevents:
  "PreventDefault \<in> set (fst (clipboardBlock P C es fragment W)) \<longleftrightarrow> rangeContents W \<noteq> None"
proof (cases "rangeContents W")
  case None
  then show ?thesis by (simp add: clipboardBlock_None)
next
  case (Some cloned)
  with clipboardBlock_Some[OF Some, of P C fragment es] show ?thesis by auto
qed

lemma clipboardBlock_calls:
  "\<forall>c\<in>set (fst (clipboardBlock P C es fragment W)). c = PreventDefault \<or> (\<exists>t d. c = SetData t d)"
proof (cases "rangeContents W")
  case None
  then show ?thesis by (simp add: clipboardBlock_None)
next
  case (Some cloned)
  with clipboardBlock_Some[OF Some, of P C fragment es] show ?thesis by auto
qed

lemma editOnCopy_collapsed:
  "isCollapsed (getSelection (latestEditorState ed)) \<Longrightarrow>
   editOnCopy P C ed e W = \<lparr>effects = [PreventDefault], timers = [], thrown = None\<rparr>"
  by (simp add: editOnCopy_def)

lemma editOnCopy_simple_collapsed:
  "isCollapsed (getSelection (latestEditorState ed)) \<Longrightarrow>
   editOnCopy_simple P C ed e W = \<lparr>effects = [PreventDefault], timers = [], thrown = None\<rparr>"
  by (simp add: editOnCopy_simple_def)

lemma editOnCut_collapsed:
  "isCollapsed (getSelection (latestEditorState ed)) \<Longrightarrow>
   editOnCut P C ed e W = \<lparr>effects = [PreventDefault], timers = [], thrown = None\<rparr>"
  by (simp add: editOnCut_def)

lemma editOnCopy_selected:
  assumes "\<not> isCollapsed (getSelection (latestEditorState ed))"
  shows "editOnCopy P C ed e W =
     (case getFragmentFromSelection C (latestEditorState ed) of
        None \<Rightarrow> \<lparr>effects = [SetClipboard None], timers = [], thrown = None\<rparr>
      | Some blocks \<Rightarrow>
          if clipboardData e
          then \<lparr>effects = SetClipboard (Some blocks) # fst (clipboardBlock P C (latestEditorState ed) blocks W),
                timers = [], thrown = snd (clipboardBlock P C (latestEditorState ed) blocks W)\<rparr>
          else \<lparr>effects = [SetClipboard (Some blocks)], timers = [], thrown = None\<rparr>)"
  using assms by (simp add: editOnCopy_def Let_def split: option.split prod.split)


lemma editOnCut_selected:
  assumes "\<not> isCollapsed (getSelection (latestEditorState ed))"
  shows "editOnCut P C ed e W =
     (case getFragmentFromSelection C (latestEditorState ed) of
        None \<Rightarrow> \<lparr>effects = [SetClipboard None, SetMode ''cut''],
                 timers = [Recovery (targetScroll e) (latestEditorState ed)], thrown = None\<rparr>
      | Some blocks \<Rightarrow>
          if clipboardData e
          then \<lparr>effects = SetClipboard (Some blocks) # SetMode ''cut'' #
                           fst (clipboardBlock P C (latestEditorState ed) blocks W),
                timers = [Recovery (targetScroll e) (latestEditorState ed)],
                thrown = snd (clipboardBlock P C (latestEditorState ed) blocks W)\<rparr>
          else \<lparr>effects = [SetClipboard (Some blocks), SetMode ''cut''],
                timers = [Recovery (targetScroll e) (latestEditorState ed)], thrown = None\<rparr>)"
  using assms by (simp add: editOnCut_def Let_def split: option.split prod.split)

lemma editOnCut_timers:
  "\<not> isCollapsed (getSelection (latestEditorState ed)) \<Longrightarrow>
   timers (editOnCut P C ed e W) = [Recovery (targetScroll e) (latestEditorState ed)]"
  by (simp add: editOnCut_selected split: option.split)

section \<open>C4: when the default action is suppressed\<close>

text \<open>
  C4, as the code has it. With a non-collapsed selection each handler calls
  \<open>preventDefault\<close> exactly when the clipboard block runs to its end: the event carries
  clipboardData, a fragment was extracted and the DOM selection has a range. The call is
  the last statement inside \<open>if (e.clipboardData && fragment)\<close>; without clipboardData the
  handlers do not suppress the default action.
\<close>

theorem preventDefault_iff_payload_written:
  assumes "\<not> isCollapsed (getSelection (latestEditorState ed))"
  shows "(PreventDefault \<in> set (effects (editOnCopy P C ed e W)) \<longleftrightarrow>
            clipboardData e \<and> getFragmentFromSelection C (latestEditorState ed) \<noteq> None \<and>
            rangeContents W \<noteq> None) \<and>
         (PreventDefault \<in> set (effects (editOnCut P C ed e W)) \<longleftrightarrow>
            clipboardData e \<and> getFragmentFromSelection C (latestEditorState ed) \<noteq> None \<and>
            rangeContents W \<noteq> None)"
  using assms
  by (simp add: editOnCopy_selected editOnCut_selected clipboardBlock_prevents split: option.split)


lemma sample_facts:
  "\<not> isCollapsed (getSelection (latestEditorState sampleEditor))"
  "isCollapsed (getSelection (latestEditorState collapsedEditor))"
  "getFragmentFromSelection sampleCollaborators (latestEditorState sampleEditor) = Some sampleFragment"
  "clipboardData withClipboardData" "\<not> clipboardData withoutClipboardData"
  "targetScroll withClipboardData = Some (0, 120)" "targetScroll withoutClipboardData = Some (0, 120)"
  "rangeContents sampleDom = Some [blockNode ''a1'' ''A'', blockNode ''b2'' ''B'', blockNode ''c3'' ''C'']"
  "rangeContents partialDom = Some [blockNode ''a1'' ''A'', TextNode ''B'', blockNode ''c3'' ''C'']"
  "selectionText sampleDom = ''A\<newline>B\<newline>C''"
  by (simp_all add: sampleEditor_def collapsedEditor_def sampleSelection_def collapsedSelection_def
        sampleCollaborators_def sampleExtract_def withClipboardData_def withoutClipboardData_def
        sampleDom_def partialDom_def)

text \<open>The sample selection, once on an event with clipboardData and once on one without.\<close>

theorem preventDefault_iff_payload_written_witness:
  "\<not> isCollapsed (getSelection (latestEditorState sampleEditor)) \<and>
   PreventDefault \<in> set (effects (editOnCopy samplePlatform sampleCollaborators sampleEditor
                                   withClipboardData sampleDom)) \<and>
   PreventDefault \<in> set (effects (editOnCut samplePlatform sampleCollaborators sampleEditor
                                   withClipboardData sampleDom)) \<and>
   PreventDefault \<notin> set (effects (editOnCopy samplePlatform sampleCollaborators sampleEditor
                                   withoutClipboardData sampleDom)) \<and>
   PreventDefault \<notin> set (effects (editOnCut samplePlatform sampleCollaborators sampleEditor
                                   withoutClipboardData sampleDom))"
  using preventDefault_iff_payload_written[OF sample_facts(1), of samplePlatform sampleCollaborators
      withClipboardData sampleDom]
    preventDefault_iff_payload_written[OF sample_facts(1), of samplePlatform sampleCollaborators
      withoutClipboardData sampleDom]
  by (simp add: sample_facts)

text \<open>
  The claim as stated has the default action suppressed whenever a selection existed. On
  an event without clipboardData neither handler calls \<open>preventDefault\<close>.
\<close>

theorem preventDefault_without_clipboardData_counterexample:
  "\<not> isCollapsed (getSelection (latestEditorState sampleEditor)) \<and>
   effects (editOnCopy samplePlatform sampleCollaborators sampleEditor withoutClipboardData sampleDom) =
     [SetClipboard (Some sampleFragment)] \<and>
   effects (editOnCut samplePlatform sampleCollaborators sampleEditor withoutClipboardData sampleDom) =
     [SetClipboard (Some sampleFragment), SetMode ''cut''] \<and>
   PreventDefault \<notin> set [SetClipboard (Some sampleFragment)] \<and>
   PreventDefault \<notin> set [SetClipboard (Some sampleFragment), SetMode ''cut'']"
  by (simp add: editOnCopy_selected editOnCut_selected sample_facts)

section \<open>C5: a collapsed selection\<close>

text \<open>
  C5. For every editor state whose selection is collapsed, the two copy handlers and the
  cut handler make one call, \<open>preventDefault\<close>, register no timer and raise nothing: no
  \<open>setClipboard\<close>, no \<open>setData\<close>, no mode change and no deferred work, so the clipboard
  cache and the external clipboard are as they were. The result does not depend on the
  extractor or on the DOM selection.
\<close>

theorem collapsed_selection_is_noop:
  assumes "isCollapsed (getSelection (latestEditorState ed))"
  shows "editOnCopy P C ed e W = \<lparr>effects = [PreventDefault], timers = [], thrown = None\<rparr> \<and>
         editOnCopy_simple P C ed e W = \<lparr>effects = [PreventDefault], timers = [], thrown = None\<rparr> \<and>
         editOnCut P C ed e W = \<lparr>effects = [PreventDefault], timers = [], thrown = None\<rparr> \<and>
         runEvent C (editOnCut P C ed e W) edAtFire = [PreventDefault] \<and>
         payload (effects (editOnCopy P C ed e W)) channel = None \<and>
         payload (effects (editOnCopy_simple P C ed e W)) channel = None \<and>
         payload (runEvent C (editOnCut P C ed e W) edAtFire) channel = None \<and>
         clipboardCacheAfter (effects (editOnCopy P C ed e W)) slot = slot \<and>
         clipboardCacheAfter (effects (editOnCopy_simple P C ed e W)) slot = slot \<and>
         clipboardCacheAfter (runEvent C (editOnCut P C ed e W) edAtFire) slot = slot"
  using assms
  by (simp add: editOnCopy_collapsed editOnCopy_simple_collapsed editOnCut_collapsed runEvent_def
        payload_def clipboardCacheAfter_def)

text \<open>A collapsed selection in the sample document, with a fragment already in the cache.\<close>

theorem collapsed_selection_is_noop_witness:
  "isCollapsed (getSelection (latestEditorState collapsedEditor)) \<and>
   effects (editOnCopy samplePlatform sampleCollaborators collapsedEditor withClipboardData sampleDom) =
     [PreventDefault] \<and>
   effects (editOnCopy_simple samplePlatform sampleCollaborators collapsedEditor withClipboardData sampleDom) =
     [PreventDefault] \<and>
   runEvent sampleCollaborators
     (editOnCut samplePlatform sampleCollaborators collapsedEditor withClipboardData sampleDom)
     laterEditor = [PreventDefault] \<and>
   clipboardCacheAfter
     (effects (editOnCopy samplePlatform sampleCollaborators collapsedEditor withClipboardData sampleDom))
     (Some flatBlocks) = Some flatBlocks"
  using collapsed_selection_is_noop[OF sample_facts(2), of samplePlatform sampleCollaborators
      withClipboardData sampleDom laterEditor "''text/html''" "Some flatBlocks"]
  by (elim conjE) (simp add: sample_facts)

section \<open>C6: the block-identity key map\<close>

lemma keyMapFrom_other:
  "(\<And>i. i < length sel \<Longrightarrow> propertyAt fk (index + i) \<noteq> k) \<Longrightarrow>
   keyMapFrom index fk acc sel k = acc k"
proof (induction sel arbitrary: index acc)
  case Nil
  show ?case by simp
next
  case (Cons item rest)
  have "propertyAt fk index \<noteq> k" using Cons.prems[of 0] by simp
  moreover have "keyMapFrom (Suc index) fk (acc(propertyAt fk index \<mapsto> item)) rest k =
      (acc(propertyAt fk index \<mapsto> item)) k"
  proof (rule Cons.IH)
    fix i assume "i < length rest"
    then show "propertyAt fk (Suc index + i) \<noteq> k" using Cons.prems[of "Suc i"] by simp
  qed
  ultimately show ?case by simp
qed

lemma keyMapFrom_zip:
  "distinct fk \<Longrightarrow> index + length sel \<le> length fk \<Longrightarrow> j < length sel \<Longrightarrow>
   keyMapFrom index fk acc sel (fk ! (index + j)) = Some (sel ! j)"
proof (induction sel arbitrary: index acc j)
  case Nil
  then show ?case by simp
next
  case (Cons item rest)
  show ?case
  proof (cases j)
    case 0
    have "keyMapFrom (Suc index) fk (acc(propertyAt fk index \<mapsto> item)) rest (fk ! index) =
        (acc(propertyAt fk index \<mapsto> item)) (fk ! index)"
    proof (rule keyMapFrom_other)
      fix i assume "i < length rest"
      with Cons.prems have "Suc index + i < length fk" "index < length fk" by simp_all
      with Cons.prems(1) show "propertyAt fk (Suc index + i) \<noteq> fk ! index"
        by (simp add: propertyAt_def nth_eq_iff_index_eq)
    qed
    moreover have "propertyAt fk index = fk ! index"
      using Cons.prems by (simp add: propertyAt_def)
    ultimately show ?thesis using 0 by simp
  next
    case (Suc j')
    with Cons.prems have "keyMapFrom (Suc index) fk (acc(propertyAt fk index \<mapsto> item)) rest
        (fk ! (Suc index + j')) = Some (rest ! j')"
      by (intro Cons.IH) simp_all
    with Suc show ?thesis by simp
  qed
qed

lemma takeWhile_neq_nth:
  "distinct xs \<Longrightarrow> n < length xs \<Longrightarrow> takeWhile (\<lambda>x. x \<noteq> xs ! n) xs = take n xs"
  by (rule takeWhile_eq_take_P_nth) (simp_all add: nth_eq_iff_index_eq)

lemma dropWhile_neq_nth:
  "distinct xs \<Longrightarrow> n < length xs \<Longrightarrow> dropWhile (\<lambda>x. x \<noteq> xs ! n) xs = drop n xs"
  using takeWhile_neq_nth[of xs n] dropWhile_eq_drop[of "\<lambda>x. x \<noteq> xs ! n" xs] by simp

lemma selectedBlockKeys_range:
  assumes "distinct keys" "s \<le> t" "t < length keys"
  shows "selectedBlockKeys keys (keys ! s) (keys ! t) = take (Suc t - s) (drop s keys)"
proof -
  have d: "dropWhile (\<lambda>x. x \<noteq> keys ! s) keys = drop s keys"
    using assms by (intro dropWhile_neq_nth) simp_all
  have n: "drop s keys ! (t - s) = keys ! t" using assms by simp
  have "takeWhile (\<lambda>x. x \<noteq> keys ! t) (drop s keys) = take (t - s) (drop s keys)"
    using takeWhile_neq_nth[of "drop s keys" "t - s"] assms n by simp
  with d n have "selectedBlockKeys keys (keys ! s) (keys ! t) =
      take (t - s) (drop s keys) @ [drop s keys ! (t - s)]"
    by (simp add: selectedBlockKeys_def)
  also have "\<dots> = take (Suc (t - s)) (drop s keys)"
    using assms by (simp add: take_Suc_conv_app_nth)
  finally show ?thesis using assms by (simp add: Suc_diff_le)
qed

text \<open>
  C6. When the fragment's key sequence (distinct, being the keys of an ordered map) is as
  long as the selected live keys, the key map sends the fragment's \<open>i\<close>-th key to the
  \<open>i\<close>-th selected key. The selected keys are computed by skip-until-start,
  take-until-end and appending the end key; when the document's keys are distinct and the
  start key stands at position \<open>s\<close>, the end key at position \<open>t\<close> with \<open>s \<le> t\<close>, that is
  the document's key subsequence from \<open>s\<close> to \<open>t\<close> inclusive, and the fragment's \<open>i\<close>-th key
  is mapped to the document's key at position \<open>s + i\<close>.
\<close>

theorem keyMap_is_positional_zip:
  assumes "length fragmentKeys = length (selectedBlockKeys docKeys startKey endKey)"
    and "distinct fragmentKeys" and "i < length fragmentKeys"
  shows "keyMap fragmentKeys (selectedBlockKeys docKeys startKey endKey) (fragmentKeys ! i) =
           Some (selectedBlockKeys docKeys startKey endKey ! i) \<and>
         (distinct docKeys \<and> s \<le> t \<and> t < length docKeys \<and> startKey = docKeys ! s \<and> endKey = docKeys ! t
            \<longrightarrow> selectedBlockKeys docKeys startKey endKey = take (Suc t - s) (drop s docKeys) \<and>
                keyMap fragmentKeys (selectedBlockKeys docKeys startKey endKey) (fragmentKeys ! i) =
                  Some (docKeys ! (s + i)))"
proof -
  let ?sel = "selectedBlockKeys docKeys startKey endKey"
  have z: "keyMap fragmentKeys ?sel (fragmentKeys ! i) = Some (?sel ! i)"
    using keyMapFrom_zip[of fragmentKeys 0 ?sel i Map.empty] assms by (simp add: keyMap_def)
  have "?sel = take (Suc t - s) (drop s docKeys) \<and> ?sel ! i = docKeys ! (s + i)"
    if h: "distinct docKeys" "s \<le> t" "t < length docKeys" "startKey = docKeys ! s" "endKey = docKeys ! t"
  proof -
    have r: "?sel = take (Suc t - s) (drop s docKeys)"
      using selectedBlockKeys_range[of docKeys s t] h by simp
    have "i < Suc t - s" using assms(1,3) r h by simp
    then show ?thesis using r h by simp
  qed
  with z show ?thesis by auto
qed

text \<open>The sample document, its second to fourth blocks selected, and the sample fragment.\<close>

theorem keyMap_is_positional_zip_witness:
  "selectedBlockKeys (map getKey sampleDocument) ''a1'' ''c3'' = [''a1'', ''b2'', ''c3''] \<and>
   distinct (map getKey sampleFragment) \<and> length (map getKey sampleFragment) = 3 \<and>
   distinct (map getKey sampleDocument) \<and>
   take (Suc 3 - 1) (drop 1 (map getKey sampleDocument)) = [''a1'', ''b2'', ''c3''] \<and>
   keyMap (map getKey sampleFragment) (selectedBlockKeys (map getKey sampleDocument) ''a1'' ''c3'') ''f2'' =
     Some ''b2''"
proof -
  have sel: "selectedBlockKeys (map getKey sampleDocument) ''a1'' ''c3'' = [''a1'', ''b2'', ''c3'']"
    by (simp add: selectedBlockKeys_def sampleDocument_def getIndent_blockAt)
  have fk: "map getKey sampleFragment = [''f1'', ''f2'', ''f3'']"
    by (simp add: sampleFragment_def getIndent_blockAt)
  have dk: "map getKey sampleDocument = [''z0'', ''a1'', ''b2'', ''c3'', ''d4'']"
    by (simp add: sampleDocument_def getIndent_blockAt)
  from keyMap_is_positional_zip[of "map getKey sampleFragment" "map getKey sampleDocument"
      "''a1''" "''c3''" 1 1 3]
  have "keyMap (map getKey sampleFragment) (selectedBlockKeys (map getKey sampleDocument) ''a1'' ''c3'')
          ''f2'' = Some ''b2''"
    unfolding sel unfolding fk dk by simp
  with sel fk dk show ?thesis by simp
qed

section \<open>C7: the fallback element\<close>




lemma editOnCut_written:
  assumes "\<not> isCollapsed (getSelection (latestEditorState ed))"
    and "getFragmentFromSelection C (latestEditorState ed) = Some fragment"
    and "clipboardData e" and "rangeContents W = Some cloned"
  shows "\<exists>r. inner P (blockKeyToElementMap (elOf True C fragment cloned)
                       (keyMapOf (latestEditorState ed) fragment) fragment) fragment = Inr r \<and>
           editOnCut P C ed e W =
             \<lparr>effects = [SetClipboard (Some fragment), SetMode ''cut'',
                         SetData ''text/plain'' (selectionText W),
                         SetData ''text/html'' (outerHTML P (elOf True C fragment cloned)),
                         SetData ''text/html'' (outerHTML P (outputElement C fragment (html r))),
                         PreventDefault],
              timers = [Recovery (targetScroll e) (latestEditorState ed)], thrown = None\<rparr>"
  using clipboardBlock_Some[OF assms(4), of P C fragment "latestEditorState ed"] assms
  by (auto simp: editOnCut_selected)



lemmas sample_defs = sampleEditor_def sampleSelection_def sampleCollaborators_def sampleExtract_def
  sampleSerialise_def sampleFragment_def sampleDocument_def blockAt_def blockNode_def
  samplePlatform_def escapeAttrSample_def escapeTextSample_def

lemmas dom_defs = elOf_def fragmentElt_def cloneNode_def removeNonEditableIn_def createElement_def
  appendChildren_def setAttribute_def setInnerHTML_def hasAttr_def querySelectorBlock_def
  outerHTML_def attrText_def voidElements_def outputElement_def


lemma sample_keyMap:
  "keyMapOf (latestEditorState sampleEditor) sampleFragment ''f1'' = Some ''a1''"
  "keyMapOf (latestEditorState sampleEditor) sampleFragment ''f2'' = Some ''b2''"
  "keyMapOf (latestEditorState sampleEditor) sampleFragment ''f3'' = Some ''c3''"
  by (simp_all add: keyMapOf_def keyMap_def selectedBlockKeys_def propertyAt_def sample_defs Let_def)





section \<open>The handlers on the sample selection\<close>

lemma sample_el:
  "elOf True sampleCollaborators sampleFragment [blockNode ''a1'' ''A'', blockNode ''b2'' ''B'', blockNode ''c3'' ''C''] =
   \<lparr>tagName = ''div'',
    attributes = [(''data-editor-content'', ''{\"keys\":\"f1f2f3\"}''), (''style'', ''white-space: pre-wrap;'')],
    childNodes = [blockNode ''a1'' ''A'', blockNode ''b2'' ''B'', blockNode ''c3'' ''C'']\<rparr>"
  by (simp add: dom_defs sampleCollaborators_def sampleSerialise_def sampleFragment_def blockAt_def
        blockNode_def Let_def)


lemma sample_serialise: "serialise sampleCollaborators sampleFragment = ''{\"keys\":\"f1f2f3\"}''"
  by (simp add: sampleCollaborators_def sampleSerialise_def sampleFragment_def blockAt_def)

lemma sample_escape:
  "escapeAttr samplePlatform ''{\"keys\":\"f1f2f3\"}'' = ''{&quot;keys&quot;:&quot;f1f2f3&quot;}''"
  "escapeAttr samplePlatform ''white-space: pre-wrap;'' = ''white-space: pre-wrap;''"
  by (simp_all add: samplePlatform_def escapeAttrSample_def)

lemma sample_captured:
  "outerHTML samplePlatform
     (elOf True sampleCollaborators sampleFragment [blockNode ''a1'' ''A'', blockNode ''b2'' ''B'', blockNode ''c3'' ''C''])
   = capturedSample"
proof -
  have n: "serialize samplePlatform (blockNode ''a1'' ''A'') = markA"
      "serialize samplePlatform (blockNode ''b2'' ''B'') = markB"
      "serialize samplePlatform (blockNode ''c3'' ''C'') = markC"
    using sample_markup by (simp_all add: outerHTML_def blockElement_def blockNode_def)
  show ?thesis
    unfolding sample_el
    by (simp add: outerHTML_def n attrText_def sample_escape voidElements_def capturedSample_def)
qed


lemma sample_em:
  "blockKeyToElementMap
     (elOf True sampleCollaborators sampleFragment [blockNode ''a1'' ''A'', blockNode ''b2'' ''B'', blockNode ''c3'' ''C''])
     (keyMapOf (latestEditorState sampleEditor) sampleFragment) sampleFragment = sampleMap"
proof
  fix k
  show "blockKeyToElementMap
     (elOf True sampleCollaborators sampleFragment [blockNode ''a1'' ''A'', blockNode ''b2'' ''B'', blockNode ''c3'' ''C''])
     (keyMapOf (latestEditorState sampleEditor) sampleFragment) sampleFragment k = sampleMap k"
    unfolding sample_el
    by (simp add: blockKeyToElementMap_def foldl_upd sampleFragment_def getIndent_blockAt sampleMap_def
          elementFor_def offsetKey_def sample_keyMap[unfolded sampleFragment_def]
          querySelectorBlock_def blockNode_def hasAttr_def blockElement_def)
qed

lemma sample_inner:
  "inner samplePlatform sampleMap sampleFragment =
     Inr \<lparr>lastIndentation = 0, html = nestedSample\<rparr>"
  using inner_nested_example by (simp add: nestedBlocks_def sampleFragment_def nestedSample_def)

lemma sample_rebuilt:
  "outerHTML samplePlatform
     (outputElement sampleCollaborators sampleFragment nestedSample)
   = rebuiltSample"
proof -
  have "nestedSample \<noteq> []" by (simp add: nestedSample_def markA_def)
  moreover have "reparse samplePlatform nestedSample = nestedSample"
    by (simp add: samplePlatform_def)
  ultimately show ?thesis
    unfolding outputElement_def sample_serialise
    by (simp add: outerHTML_def setInnerHTML_def setAttribute_def createElement_def attrText_def
          sample_escape voidElements_def rebuiltSample_def)
qed


lemma sample_cut:
  "editOnCut samplePlatform sampleCollaborators sampleEditor withClipboardData sampleDom =
     \<lparr>effects = [SetClipboard (Some sampleFragment), SetMode ''cut'',
                 SetData ''text/plain'' ''A\<newline>B\<newline>C'',
                 SetData ''text/html'' capturedSample, SetData ''text/html'' rebuiltSample,
                 PreventDefault],
      timers = [Recovery (Some (0, 120)) (latestEditorState sampleEditor)], thrown = None\<rparr>"
  using editOnCut_written[OF sample_facts(1) sample_facts(3) sample_facts(4) sample_facts(8),
      of samplePlatform]
  by (simp add: sample_em sample_inner sample_captured sample_rebuilt sample_facts)


lemma sample_removeFragment:
  "removeFragment sampleCollaborators (latestEditorState sampleEditor) = afterCutSample"
  by (simp add: removeFragment_def sampleCollaborators_def sampleRemoveRange_def samplePush_def
        sampleEditor_def sampleDocument_def sampleSelection_def selectedBlockKeys_def
        getIndent_blockAt afterCutSample_def)

section \<open>C8: the deferred recovery of a cut\<close>

lemma editOnCut_effects_not_recovery:
  "\<forall>c\<in>set (effects (editOnCut P C ed e W)). \<not> isRecoveryCall c"
proof (cases "isCollapsed (getSelection (latestEditorState ed))")
  case True
  then show ?thesis by (simp add: editOnCut_collapsed)
next
  case False
  have "\<forall>c\<in>set (fst (clipboardBlock P C es fragment W)). \<not> isRecoveryCall c" for es fragment
    using clipboardBlock_calls[of P C es fragment W] by auto
  with False show ?thesis
    by (simp add: editOnCut_selected split: option.split)
qed

text \<open>
  C8. For every cut with a non-collapsed selection the handler registers exactly one
  timer. The event's calls are the handler's own calls followed by the timer's three:
  \<open>restoreEditorDOM\<close>, \<open>exitCurrentMode\<close>, then \<open>update\<close> with the removed-range state. None of
  these three occurs among the handler's own calls, so each runs once and \<open>update\<close> comes
  after the other two; every clipboard write belongs to the handler's own task and so
  precedes the timer. With clipboardData, a fragment and a DOM range the handler's task
  holds the complete clipboard population.
\<close>

theorem cut_recovery_once_after_clipboard:
  assumes "\<not> isCollapsed (getSelection (latestEditorState ed))"
  shows "timers (editOnCut P C ed e W) = [Recovery (targetScroll e) (latestEditorState ed)] \<and>
         runEvent C (editOnCut P C ed e W) edAtFire =
           effects (editOnCut P C ed e W) @
           [RestoreEditorDOM (targetScroll e), ExitCurrentMode,
            Update (removeFragment C (latestEditorState ed))] \<and>
         (\<forall>c\<in>set (effects (editOnCut P C ed e W)). \<not> isRecoveryCall c) \<and>
         (clipboardData e \<and> rangeContents W \<noteq> None \<and>
          getFragmentFromSelection C (latestEditorState ed) \<noteq> None \<longrightarrow>
            (\<exists>captured rebuilt.
               effects (editOnCut P C ed e W) =
                 [SetClipboard (getFragmentFromSelection C (latestEditorState ed)), SetMode ''cut'',
                  SetData ''text/plain'' (selectionText W), SetData ''text/html'' captured,
                  SetData ''text/html'' rebuilt, PreventDefault]))"
proof -
  have t: "timers (editOnCut P C ed e W) = [Recovery (targetScroll e) (latestEditorState ed)]"
    using assms by (rule editOnCut_timers)
  have r: "runEvent C (editOnCut P C ed e W) edAtFire =
           effects (editOnCut P C ed e W) @
           [RestoreEditorDOM (targetScroll e), ExitCurrentMode,
            Update (removeFragment C (latestEditorState ed))]"
    by (simp add: runEvent_def t)
  have w: "\<exists>captured rebuilt.
               effects (editOnCut P C ed e W) =
                 [SetClipboard (getFragmentFromSelection C (latestEditorState ed)), SetMode ''cut'',
                  SetData ''text/plain'' (selectionText W), SetData ''text/html'' captured,
                  SetData ''text/html'' rebuilt, PreventDefault]"
    if "clipboardData e" "rangeContents W \<noteq> None"
       "getFragmentFromSelection C (latestEditorState ed) \<noteq> None"
  proof -
    from that obtain cloned fragment where
      "rangeContents W = Some cloned" "getFragmentFromSelection C (latestEditorState ed) = Some fragment"
      by auto
    with editOnCut_written[OF assms _ that(1), of C fragment W cloned P] show ?thesis by auto
  qed
  from t r w editOnCut_effects_not_recovery[of P C ed e W] show ?thesis by blast
qed

text \<open>The whole trace of a cut of the sample selection.\<close>

theorem cut_recovery_once_after_clipboard_witness:
  "\<not> isCollapsed (getSelection (latestEditorState sampleEditor)) \<and>
   clipboardData withClipboardData \<and> rangeContents sampleDom \<noteq> None \<and>
   getFragmentFromSelection sampleCollaborators (latestEditorState sampleEditor) \<noteq> None \<and>
   runEvent sampleCollaborators
     (editOnCut samplePlatform sampleCollaborators sampleEditor withClipboardData sampleDom) laterEditor =
     [SetClipboard (Some sampleFragment), SetMode ''cut'',
      SetData ''text/plain'' ''A\<newline>B\<newline>C'',
      SetData ''text/html'' capturedSample, SetData ''text/html'' rebuiltSample, PreventDefault,
      RestoreEditorDOM (Some (0, 120)), ExitCurrentMode, Update afterCutSample]"
proof -
  from cut_recovery_once_after_clipboard[OF sample_facts(1), of samplePlatform sampleCollaborators
      withClipboardData sampleDom laterEditor]
  have "runEvent sampleCollaborators
     (editOnCut samplePlatform sampleCollaborators sampleEditor withClipboardData sampleDom) laterEditor =
     effects (editOnCut samplePlatform sampleCollaborators sampleEditor withClipboardData sampleDom) @
     [RestoreEditorDOM (targetScroll withClipboardData), ExitCurrentMode,
      Update (removeFragment sampleCollaborators (latestEditorState sampleEditor))]"
    by blast
  then show ?thesis
    by (simp add: sample_cut sample_removeFragment sample_facts)
qed

section \<open>C9: the two builds of the copy handler\<close>





section \<open>C10: the state the recovery removes from\<close>

text \<open>
  C10. The timer of a cut carries the editor state read when the cut event fired. Whatever
  the editor's latest state is when the timer fires, the state handed to \<open>update\<close> is
  \<open>removeFragment\<close> of that captured state: \<open>removeRange\<close> applied to its content and its
  selection with direction 'forward', pushed onto it with change type 'remove-range'.
\<close>

theorem recovery_removes_from_snapshot:
  assumes "\<not> isCollapsed (getSelection (latestEditorState ed))"
  shows "timers (editOnCut P C ed e W) = [Recovery (targetScroll e) (latestEditorState ed)] \<and>
         concat (map (runCallback C edAtFire) (timers (editOnCut P C ed e W))) =
           [RestoreEditorDOM (targetScroll e), ExitCurrentMode,
            Update (push C (latestEditorState ed)
                      (removeRange C (getCurrentContent (latestEditorState ed))
                         (getSelection (latestEditorState ed)) ''forward'')
                      ''remove-range'')] \<and>
         removeFragment C (latestEditorState ed) =
           push C (latestEditorState ed)
             (removeRange C (getCurrentContent (latestEditorState ed))
                (getSelection (latestEditorState ed)) ''forward'')
             ''remove-range''"
  using assms by (simp add: editOnCut_timers removeFragment_def)

text \<open>The timer of a cut of the sample selection, fired against an editor whose state has moved on.\<close>

theorem recovery_removes_from_snapshot_witness:
  "\<not> isCollapsed (getSelection (latestEditorState sampleEditor)) \<and>
   latestEditorState laterEditor \<noteq> latestEditorState sampleEditor \<and>
   concat (map (runCallback sampleCollaborators laterEditor)
     (timers (editOnCut samplePlatform sampleCollaborators sampleEditor withoutClipboardData sampleDom))) =
     [RestoreEditorDOM (Some (0, 120)), ExitCurrentMode, Update afterCutSample]"
proof -
  have "push sampleCollaborators (latestEditorState sampleEditor)
          (removeRange sampleCollaborators (getCurrentContent (latestEditorState sampleEditor))
             (getSelection (latestEditorState sampleEditor)) ''forward'')
          ''remove-range'' = afterCutSample"
    using sample_removeFragment by (simp add: removeFragment_def)
  moreover have "latestEditorState laterEditor \<noteq> latestEditorState sampleEditor"
    by (simp add: laterEditor_def sampleEditor_def sampleDocument_def)
  ultimately show ?thesis
    using recovery_removes_from_snapshot[OF sample_facts(1), of samplePlatform sampleCollaborators
        withoutClipboardData sampleDom laterEditor]
    by (simp add: sample_facts)
qed

end
